theory Spec2Isabelle
  imports Complex_Main "HOL-Library.AList"
begin

section \<open>JavaScript values and arithmetic\<close>

text \<open>
  The source computes with JavaScript numbers, which are IEEE doubles: sums and quotients
  are rounded, large values overflow to an infinity, and a counter that is large enough no
  longer changes when 10 is subtracted from it. The embedding does not fix this arithmetic.
  The type \<open>'n\<close> of numbers and the operations the source uses on them are a parameter,
  a record of type \<open>'n arith\<close>, about which nothing is assumed. What is proved for every
  arithmetic therefore holds for the doubles of the source, with their rounding, their
  infinities and their \<open>NaN\<close>.

  \<^item> \<open>jnum ar r\<close> is the number that a numeric literal, an array length or \<open>Math.PI\<close>
    with the mathematical value \<open>r\<close> denotes;
  \<^item> \<open>jadd\<close>, \<open>jsub\<close>, \<open>jmul\<close>, \<open>jdiv\<close> are \<open>+\<close>, \<open>-\<close>, \<open>*\<close>, \<open>/\<close> on numbers
    and \<open>jceil\<close> is \<open>Math.ceil\<close>;
  \<^item> \<open>jlt ar a b\<close> is \<open>a < b\<close> (and \<open>b > a\<close>), \<open>jge ar a b\<close> is \<open>a >= b\<close>.

  The arithmetic \<open>exact\<close> is the real numbers without rounding. It is used where a
  result is computed on concrete numbers, all of them integers and binary fractions of
  small size, on which doubles are exact as well. Its division by zero is never reached:
  the source divides by 10, 2 and 180, and by the number of directions only inside a loop
  over at least one direction.
\<close>

record 'n arith =
  jnum :: "real \<Rightarrow> 'n"
  jadd :: "'n \<Rightarrow> 'n \<Rightarrow> 'n"
  jsub :: "'n \<Rightarrow> 'n \<Rightarrow> 'n"
  jmul :: "'n \<Rightarrow> 'n \<Rightarrow> 'n"
  jdiv :: "'n \<Rightarrow> 'n \<Rightarrow> 'n"
  jceil :: "'n \<Rightarrow> 'n"
  jlt :: "'n \<Rightarrow> 'n \<Rightarrow> bool"
  jge :: "'n \<Rightarrow> 'n \<Rightarrow> bool"

definition exact :: "real arith" where
  "exact = \<lparr>jnum = (\<lambda>r. r), jadd = (+), jsub = (-), jmul = (*), jdiv = (/),
            jceil = (\<lambda>x. of_int \<lceil>x\<rceil>), jlt = (<), jge = (\<ge>)\<rparr>"

text \<open>
  A value of type \<open>'n jsnum\<close> is what a numeric expression of the source evaluates to:
  \<open>Some x\<close> is the number \<open>x\<close>, and \<open>None\<close> is \<open>undefined\<close> or what arithmetic makes
  of it (\<open>undefined + 3\<close> is \<open>NaN\<close>, \<open>0 + {}\<close> is a string). Arithmetic on \<open>None\<close>
  gives \<open>None\<close> and every comparison with it is false, as for \<open>NaN\<close>.

  An object literal is an association list in insertion order, which is the order in which
  \<open>for (k in obj)\<close> visits string keys that are not array indices. A wind rose data object
  maps each key either to a number or to an object of speed bins. The keys of an object are
  distinct, so the value visited with a key is the value stored under it.
\<close>

type_synonym 'n jsnum = "'n option"

type_synonym 'n bins = "(string \<times> 'n) list"

datatype 'n jsval = Num 'n | Obj "'n bins"

type_synonym 'n dataset = "(string \<times> 'n jsval) list"

datatype error = TypeError | ReferenceError

text \<open>
  A call returns, throws, or never returns. The last happens when one of the counting
  loops of the source does not end.
\<close>

datatype 'a outcome = Returns 'a | Throws error | Diverges

text \<open>
  Reading \<open>obj[k]\<close>: the value of the object's own key \<open>k\<close>; for a key the object does
  not have, a function or object inherited from \<open>Object.prototype\<close> when \<open>k\<close> names one,
  and \<open>undefined\<close> otherwise. Reading a property of \<open>undefined\<close> raises a TypeError;
  reading \<open>fill\<close>, \<open>width\<close> or \<open>start\<close> of an inherited value gives \<open>undefined\<close>.
\<close>

definition object_prototype_keys :: "string list" where
  "object_prototype_keys =
     [''constructor'', ''hasOwnProperty'', ''isPrototypeOf'', ''propertyIsEnumerable'',
      ''toLocaleString'', ''toString'', ''valueOf'', ''__proto__'', ''__defineGetter__'',
      ''__defineSetter__'', ''__lookupGetter__'', ''__lookupSetter__'']"

datatype 'a property = Own 'a | Inherited | Missing

definition property :: "(string \<times> 'a) list \<Rightarrow> string \<Rightarrow> 'a property" where
  "property obj k =
     (case map_of obj k of
        Some v \<Rightarrow> Own v
      | None \<Rightarrow> if k \<in> set object_prototype_keys then Inherited else Missing)"

text \<open>\<open>for (var bin in v)\<close>: the enumerable keys of \<open>v\<close> with their values; a number has none.\<close>

fun for_in :: "'n jsval \<Rightarrow> 'n bins" where
  "for_in (Num n) = []"
| "for_in (Obj bs) = bs"

text \<open>\<open>len + calm\<close> where \<open>len\<close> is a number: a number when \<open>calm\<close> is one, otherwise
  a string, which every later comparison with a number treats as \<open>NaN\<close>.\<close>

fun plus_val :: "'n arith \<Rightarrow> 'n \<Rightarrow> 'n jsval \<Rightarrow> 'n jsnum" where
  "plus_val ar len (Num c) = Some (jadd ar len c)"
| "plus_val ar len (Obj bs) = None"

text \<open>\<open>offset + freq\<close> where \<open>freq\<close> is a number.\<close>

fun plus_num :: "'n arith \<Rightarrow> 'n jsnum \<Rightarrow> 'n \<Rightarrow> 'n jsnum" where
  "plus_num ar (Some a) b = Some (jadd ar a b)"
| "plus_num ar None b = None"

text \<open>\<open>data[key]\<close> read as a number: \<open>undefined\<close> when the key is missing.\<close>

definition member_num :: "'n dataset \<Rightarrow> string \<Rightarrow> 'n jsnum" where
  "member_num data k = (case map_of data k of Some (Num c) \<Rightarrow> Some c | Some (Obj bs) \<Rightarrow> None | None \<Rightarrow> None)"

fun val_num :: "'n jsval \<Rightarrow> 'n jsnum" where
  "val_num (Num c) = Some c"
| "val_num (Obj bs) = None"

text \<open>The numbers of an object literal of the source, in the arithmetic at hand.\<close>

definition literal_data :: "'n arith \<Rightarrow> real dataset \<Rightarrow> 'n dataset" where
  "literal_data ar data = map (\<lambda>e. (fst e, map_jsval (jnum ar) (snd e))) data"

section \<open>Directions and angles\<close>

definition degreesInCircle :: "'n arith \<Rightarrow> 'n" where
  "degreesInCircle ar = jnum ar 360"

primrec getDirections_loop :: "'n dataset \<Rightarrow> string list \<Rightarrow> string list" where
  "getDirections_loop [] directions = directions"
| "getDirections_loop (e # es) directions =
     getDirections_loop es (if fst e \<noteq> ''calm'' then directions @ [fst e] else directions)"

definition getDirections :: "'n dataset \<Rightarrow> string list" where
  "getDirections data = getDirections_loop data []"

record 'n angle_span =
  start :: 'n
  finish :: 'n

type_synonym 'n angles = "(string \<times> 'n angle_span) list"

text \<open>
  The loop of \<open>getAngles\<close>. The object literal evaluates \<open>start\<close> with the current
  \<open>factor\<close>, then \<open>end\<close> (here \<open>finish\<close>) with the incremented one, which stays
  incremented for the next direction. Assigning \<open>angs[d]\<close> replaces the value of an
  existing key in place and appends a new key otherwise.
\<close>

primrec getAngles_loop :: "'n arith \<Rightarrow> 'n \<Rightarrow> 'n \<Rightarrow> string list \<Rightarrow> 'n angles \<Rightarrow> 'n angles" where
  "getAngles_loop ar slices factor [] angs = angs"
| "getAngles_loop ar slices factor (d # ds) angs =
     getAngles_loop ar slices (jadd ar factor (jnum ar 1)) ds
       (AList.update d
          \<lparr>start = jmul ar (jdiv ar (degreesInCircle ar) slices) factor,
           finish = jmul ar (jdiv ar (degreesInCircle ar) slices) (jadd ar factor (jnum ar 1))\<rparr>
          angs)"

definition getAngles :: "'n arith \<Rightarrow> string list \<Rightarrow> 'n angles" where
  "getAngles ar directions =
     getAngles_loop ar (jnum ar (real (length directions))) (jnum ar (- 0.5)) directions []"

section \<open>Arm lengths and the domain\<close>

text \<open>\<open>function gt(val) { if (val > max) { max = val; } }\<close>, returning the new \<open>max\<close>.\<close>

fun gt :: "'n arith \<Rightarrow> 'n \<Rightarrow> 'n jsnum \<Rightarrow> 'n" where
  "gt ar mx (Some v) = (if jlt ar mx v then v else mx)"
| "gt ar mx None = mx"

primrec sum_bins :: "'n arith \<Rightarrow> 'n bins \<Rightarrow> 'n \<Rightarrow> 'n" where
  "sum_bins ar [] len = len"
| "sum_bins ar (b # bs) len = sum_bins ar bs (jadd ar len (snd b))"

text \<open>
  The loop of \<open>maxLength\<close> over the keys of \<open>data\<close>, with the variables \<open>max\<close>,
  \<open>calm\<close> and \<open>len\<close> as arguments. \<open>gt(len+calm)\<close> runs for every key, also for
  \<open>"calm"\<close>, where \<open>len\<close> still holds the previous direction's sum.
\<close>

primrec maxLength_loop :: "'n arith \<Rightarrow> 'n dataset \<Rightarrow> 'n \<Rightarrow> 'n jsval \<Rightarrow> 'n \<Rightarrow> 'n" where
  "maxLength_loop ar [] mx calm len = mx"
| "maxLength_loop ar (e # es) mx calm len =
     (if fst e = ''calm''
      then maxLength_loop ar es (gt ar mx (plus_val ar len (snd e))) (snd e) len
      else (let len' = sum_bins ar (for_in (snd e)) (jnum ar 0)
            in maxLength_loop ar es (gt ar mx (plus_val ar len' calm)) calm len'))"

definition maxLength :: "'n arith \<Rightarrow> 'n dataset \<Rightarrow> 'n" where
  "maxLength ar data = maxLength_loop ar data (jnum ar 0) (Num (jnum ar 0)) (jnum ar 0)"

definition domain :: "'n arith \<Rightarrow> 'n dataset \<Rightarrow> 'n" where
  "domain ar data = jmul ar (jceil ar (jdiv ar (maxLength ar data) (jnum ar 10))) (jnum ar 10)"

text \<open>
  \<open>directionWithMinimumLength\<close> does not declare \<open>calm\<close>: it assigns and reads the global
  variable of that name. The global is \<open>None\<close> while no assignment has created it, and
  reading it then raises a ReferenceError.
\<close>

record 'n globals =
  global_calm :: "'n jsval option"

fun lt :: "'n arith \<Rightarrow> 'n \<times> string \<Rightarrow> 'n jsnum \<Rightarrow> string \<Rightarrow> 'n \<times> string" where
  "lt ar (mn, mindir) (Some v) dir = (if jlt ar v mn then (v, dir) else (mn, mindir))"
| "lt ar (mn, mindir) None dir = (mn, mindir)"

primrec directionWithMinimumLength_loop ::
  "'n arith \<Rightarrow> 'n dataset \<Rightarrow> 'n \<times> string \<Rightarrow> 'n \<Rightarrow> 'n globals \<Rightarrow> string outcome \<times> 'n globals" where
  "directionWithMinimumLength_loop ar [] m len g = (Returns (snd m), g)"
| "directionWithMinimumLength_loop ar (e # es) m len g =
     (let g' = (if fst e = ''calm'' then g\<lparr>global_calm := Some (snd e)\<rparr> else g);
          len' = (if fst e = ''calm'' then len else sum_bins ar (for_in (snd e)) (jnum ar 0))
      in case global_calm g' of
           None \<Rightarrow> (Throws ReferenceError, g')
         | Some calm \<Rightarrow>
             directionWithMinimumLength_loop ar es (lt ar m (plus_val ar len' calm) (fst e)) len' g')"

definition directionWithMinimumLength ::
  "'n arith \<Rightarrow> 'n dataset \<Rightarrow> 'n globals \<Rightarrow> string outcome \<times> 'n globals" where
  "directionWithMinimumLength ar data g =
     directionWithMinimumLength_loop ar data (jnum ar 0, '''') (jnum ar 0) g"

section \<open>The drawing surface\<close>

text \<open>
  The svg container is the list of the elements appended to it, in call order. An element
  is its tag with the settings made on it, in call order: \<open>.attr\<close>, \<open>.style\<close>, the
  text of an appended \<open>title\<close> child, and its own text content. A string built by
  concatenation keeps its numeric operands unformatted. The arc generator passed as the
  \<open>d\<close> attribute is recorded with the four values it was configured with.
\<close>

record 'n center =
  center_x :: 'n
  center_y :: 'n

record 'n arc =
  innerRadius :: "'n jsnum"
  outerRadius :: "'n jsnum"
  startAngle :: "'n jsnum"
  endAngle :: "'n jsnum"

datatype 'n piece = Lit string | NumP "'n jsnum"

datatype 'n aval = Number "'n jsnum" | Str string | Txt "'n piece list" | Arc "'n arc" | Undefined

datatype slot = Attr string | Style string | Title | Text

type_synonym 'n element = "string \<times> (slot \<times> 'n aval) list"

type_synonym 'n surface = "'n element list"

definition rad :: "'n arith \<Rightarrow> 'n \<Rightarrow> 'n" where
  "rad ar deg = jmul ar deg (jdiv ar (jnum ar pi) (jnum ar 180))"

text \<open>
  \<open>windrose.rad(angles[dir].start)\<close> for the value read as \<open>angles[dir]\<close>, which is not
  \<open>undefined\<close>: the \<open>start\<close> of an inherited value is \<open>undefined\<close>, and its product
  with a number is \<open>NaN\<close>.
\<close>

fun rad_of :: "'n arith \<Rightarrow> ('n angle_span \<Rightarrow> 'n) \<Rightarrow> 'n angle_span property \<Rightarrow> 'n jsnum" where
  "rad_of ar field (Own a) = Some (rad ar (field a))"
| "rad_of ar field Inherited = None"
| "rad_of ar field Missing = None"

text \<open>
  \<open>for (var v = from; v >= bound; v -= 10)\<close>: the values of \<open>v\<close> the body runs with,
  and \<open>None\<close> when the loop does not end.
\<close>

partial_function (option) for_down :: "'n arith \<Rightarrow> 'n \<Rightarrow> 'n \<Rightarrow> 'n list option" where
  "for_down ar v bound =
     (if jge ar v bound
      then Option.bind (for_down ar (jsub ar v (jnum ar 10)) bound) (\<lambda>vs. Some (v # vs))
      else Some [])"

text \<open>The values of the loop variable in exact arithmetic, where the loop always ends.\<close>

function countdown :: "real \<Rightarrow> real \<Rightarrow> real list" where
  "countdown v bound = (if v \<ge> bound then v # countdown (v - 10) bound else [])"
  by pat_completeness auto
termination
  by (relation "measure (\<lambda>(v, bound). nat (\<lfloor>v - bound\<rfloor> + 1))") (auto, linarith)

declare countdown.simps [simp del]

section \<open>The frequency rose\<close>

definition config :: "(string \<times> string) list" where
  "config = [(''0-10'', ''#FFFF99''), (''10-20'', ''#FFFF33''),
             (''20-30'', ''#FFCC00''), (''>30'', ''#FF9900'')]"

text \<open>\<open>windrose.config[bin]["fill"]\<close> for a value \<open>windrose.config[bin]\<close> that is not \<open>undefined\<close>.\<close>

fun fill_of :: "string property \<Rightarrow> 'n aval" where
  "fill_of (Own fill) = Str fill"
| "fill_of Inherited = Undefined"
| "fill_of Missing = Undefined"

definition frequency_circle :: "'n arith \<Rightarrow> 'n center \<Rightarrow> 'n \<Rightarrow> 'n element list" where
  "frequency_circle ar c freq =
     [(''circle'',
        [(Attr ''cx'', Number (Some (center_x c))),
         (Attr ''cy'', Number (Some (center_y c))),
         (Attr ''r'', Number (Some freq)),
         (Style ''fill'', Str ''white''),
         (Style ''stroke'', Str ''#C8C8C8''),
         (Title, Txt [NumP (Some freq), Lit ''%''])]),
      (''text'',
        [(Attr ''x'', Number (Some (center_x c))),
         (Attr ''y'', Number (Some (jadd ar (center_y c) freq))),
         (Attr ''fill'', Str ''#C0C0C0''),
         (Attr ''font-size'', Str ''5pt''),
         (Attr ''font-family'', Str ''Arial''),
         (Text, Txt [NumP (Some freq), Lit ''%'']),
         (Attr ''transform'',
            Txt [Lit ''rotate(-22.5 '', NumP (Some (center_x c)), Lit '' '',
                 NumP (Some (center_y c)), Lit '')''])])]"

definition drawFrequencyCircles :: "'n arith \<Rightarrow> 'n \<Rightarrow> 'n center \<Rightarrow> 'n surface \<Rightarrow> 'n surface option" where
  "drawFrequencyCircles ar dmn c svg =
     map_option (foldl (\<lambda>s freq. s @ frequency_circle ar c freq) svg)
       (for_down ar dmn (jnum ar 5))"

definition chunk_arc :: "'n arith \<Rightarrow> 'n jsnum \<Rightarrow> 'n \<Rightarrow> 'n angle_span property \<Rightarrow> 'n arc" where
  "chunk_arc ar offset freq a =
     \<lparr>innerRadius = offset, outerRadius = plus_num ar offset freq,
      startAngle = rad_of ar start a, endAngle = rad_of ar finish a\<rparr>"

definition chunk_path ::
  "'n arith \<Rightarrow> string \<Rightarrow> string \<Rightarrow> 'n \<Rightarrow> 'n center \<Rightarrow> 'n arc \<Rightarrow> 'n aval \<Rightarrow> 'n element" where
  "chunk_path ar dir bin freq c arc0 fill =
     (''path'',
       [(Attr ''d'', Arc arc0),
        (Attr ''fill'', fill),
        (Attr ''fill-opacity'', Number (Some (jnum ar 0.5))),
        (Style ''stroke'', Str ''black''),
        (Attr ''transform'',
           Txt [Lit ''translate('', NumP (Some (center_x c)), Lit '','',
                NumP (Some (center_y c)), Lit '')'']),
        (Title, Txt [Lit dir, Lit '' '', Lit bin, Lit '' m/s '', NumP (Some freq), Lit ''%''])])"

text \<open>
  \<open>drawChunk\<close>: building the arc reads \<open>angles[dir].start\<close>, a TypeError when
  \<open>angles[dir]\<close> is \<open>undefined\<close>. The path is then appended and given its \<open>d\<close>
  attribute before \<open>windrose.config[bin]["fill"]\<close> is evaluated, a TypeError when
  \<open>windrose.config[bin]\<close> is \<open>undefined\<close>, which leaves the unfinished path on the
  surface.
\<close>

definition drawChunk ::
  "'n arith \<Rightarrow> string \<Rightarrow> string \<Rightarrow> 'n \<Rightarrow> 'n jsnum \<Rightarrow> 'n center \<Rightarrow> 'n angles \<Rightarrow> 'n surface
     \<Rightarrow> 'n jsnum outcome \<times> 'n surface" where
  "drawChunk ar dir bin freq offset c angs svg =
     (case property angs dir of
        Missing \<Rightarrow> (Throws TypeError, svg)
      | a \<Rightarrow>
          (case property config bin of
             Missing \<Rightarrow>
               (Throws TypeError, svg @ [(''path'', [(Attr ''d'', Arc (chunk_arc ar offset freq a))])])
           | fill \<Rightarrow>
               (Returns (plus_num ar offset freq),
                svg @ [chunk_path ar dir bin freq c (chunk_arc ar offset freq a) (fill_of fill)])))"

primrec drawRose_bins ::
  "'n arith \<Rightarrow> string \<Rightarrow> 'n bins \<Rightarrow> 'n jsnum \<Rightarrow> 'n center \<Rightarrow> 'n angles \<Rightarrow> 'n surface
     \<Rightarrow> 'n jsnum outcome \<times> 'n surface" where
  "drawRose_bins ar dir [] offset c angs svg = (Returns offset, svg)"
| "drawRose_bins ar dir (b # bs) offset c angs svg =
     (case drawChunk ar dir (fst b) (snd b) offset c angs svg of
        (Returns offset', svg') \<Rightarrow> drawRose_bins ar dir bs offset' c angs svg'
      | (Throws err, svg') \<Rightarrow> (Throws err, svg')
      | (Diverges, svg') \<Rightarrow> (Diverges, svg'))"

text \<open>
  The loop of \<open>drawRose\<close> over the keys of \<open>data\<close>; \<open>es\<close> are the keys still to visit,
  each with the value stored under it.
\<close>

primrec drawRose_dirs ::
  "'n arith \<Rightarrow> 'n dataset \<Rightarrow> 'n dataset \<Rightarrow> 'n center \<Rightarrow> 'n angles \<Rightarrow> 'n surface
     \<Rightarrow> unit outcome \<times> 'n surface" where
  "drawRose_dirs ar data [] c angs svg = (Returns (), svg)"
| "drawRose_dirs ar data (e # es) c angs svg =
     (if fst e \<noteq> ''calm''
      then (case drawRose_bins ar (fst e) (for_in (snd e)) (member_num data ''calm'') c angs svg of
              (Returns offset', svg') \<Rightarrow> drawRose_dirs ar data es c angs svg'
            | (Throws err, svg') \<Rightarrow> (Throws err, svg')
            | (Diverges, svg') \<Rightarrow> (Diverges, svg'))
      else drawRose_dirs ar data es c angs svg)"

definition speed_bins :: "'n \<Rightarrow> 'n \<Rightarrow> 'n \<Rightarrow> 'n \<Rightarrow> 'n jsval" where
  "speed_bins a b c d = Obj [(''0-10'', a), (''10-20'', b), (''20-30'', c), (''>30'', d)]"

definition drawRose_default_data :: "real dataset" where
  "drawRose_default_data =
     [(''calm'', Num 8),
      (''N'', speed_bins 3 12 0 0),
      (''NNE'', speed_bins 4 9 2 0),
      (''NE'', speed_bins 0 20 0 0),
      (''ENE'', speed_bins 0 2 0 0),
      (''E'', speed_bins 0 5 0 0),
      (''ESE'', speed_bins 0 5 0 0),
      (''SE'', speed_bins 0 0 0 0),
      (''SSE'', speed_bins 0 0 0 0),
      (''S'', speed_bins 20 30 10 10),
      (''SSW'', speed_bins 23 0 0 0),
      (''SW'', speed_bins 23 0 0 0),
      (''WSW'', speed_bins 0 11 0 0),
      (''W'', speed_bins 0 11 0 0),
      (''WNW'', speed_bins 0 11 0 0),
      (''NW'', speed_bins 0 0 0 0),
      (''NNW'', speed_bins 0 0 0 0)]"

definition default_center :: "'n arith \<Rightarrow> 'n center" where
  "default_center ar = \<lparr>center_x = jnum ar 100, center_y = jnum ar 80\<rparr>"

text \<open>
  An omitted argument is \<open>None\<close>. The default container is a new, empty \<open>svg\<close> element.
  When the loop of \<open>drawFrequencyCircles\<close> does not end, neither does the call, which
  then keeps appending circles; the surface given with \<open>Diverges\<close> is the one before
  the loop.
\<close>

definition drawRose ::
  "'n arith \<Rightarrow> 'n dataset option \<Rightarrow> 'n center option \<Rightarrow> 'n surface option
     \<Rightarrow> unit outcome \<times> 'n surface" where
  "drawRose ar data_arg center_arg svg_arg =
     (let data = (case data_arg of Some d \<Rightarrow> d | None \<Rightarrow> literal_data ar drawRose_default_data);
          c = (case center_arg of Some c \<Rightarrow> c | None \<Rightarrow> default_center ar);
          svg = (case svg_arg of Some s \<Rightarrow> s | None \<Rightarrow> [])
      in case drawFrequencyCircles ar (domain ar data) c svg of
           None \<Rightarrow> (Diverges, svg)
         | Some svg1 \<Rightarrow>
             (let directions = getDirections data;
                  angs = getAngles ar directions
              in drawRose_dirs ar data data c angs svg1))"

section \<open>The BOM-style (telescope) rose\<close>













section \<open>The mean directional rose\<close>

definition speed_circle :: "'n center \<Rightarrow> 'n \<Rightarrow> 'n element" where
  "speed_circle c speed =
     (''circle'',
       [(Attr ''cx'', Number (Some (center_x c))),
        (Attr ''cy'', Number (Some (center_y c))),
        (Attr ''r'', Number (Some speed)),
        (Style ''fill'', Str ''white''),
        (Style ''stroke'', Str ''#C8C8C8'')])"

definition drawSpeedCircles :: "'n arith \<Rightarrow> 'n surface \<Rightarrow> 'n center \<Rightarrow> 'n surface option" where
  "drawSpeedCircles ar svg c =
     map_option (foldl (\<lambda>s speed. s @ [speed_circle c speed]) svg)
       (for_down ar (jnum ar 80) (jnum ar 5))"

definition slice_arc :: "'n arith \<Rightarrow> 'n jsval \<Rightarrow> 'n angle_span property \<Rightarrow> 'n arc" where
  "slice_arc ar speed a =
     \<lparr>innerRadius = Some (jnum ar 0), outerRadius = val_num speed,
      startAngle = rad_of ar start a, endAngle = rad_of ar finish a\<rparr>"

definition slice_path :: "'n arith \<Rightarrow> 'n center \<Rightarrow> string \<Rightarrow> 'n jsval \<Rightarrow> 'n arc \<Rightarrow> 'n element" where
  "slice_path ar c dir speed arc0 =
     (''path'',
       [(Attr ''d'', Arc arc0),
        (Attr ''fill'', Str ''green''),
        (Attr ''fill-opacity'', Number (Some (jnum ar 0.5))),
        (Style ''stroke'', Str ''black''),
        (Attr ''transform'',
           Txt [Lit ''translate('', NumP (Some (center_x c)), Lit '','',
                NumP (Some (center_y c)), Lit '')'']),
        (Title, Txt [Lit dir, Lit '' average wind speed is '', NumP (val_num speed), Lit ''m/s''])])"

text \<open>\<open>drawSpeedSlice\<close> reads \<open>angles[dir].start\<close> before it appends anything.\<close>

definition drawSpeedSlice ::
  "'n arith \<Rightarrow> 'n surface \<Rightarrow> 'n center \<Rightarrow> string \<Rightarrow> 'n jsval \<Rightarrow> 'n angles
     \<Rightarrow> unit outcome \<times> 'n surface" where
  "drawSpeedSlice ar svg c dir speed angs =
     (case property angs dir of
        Missing \<Rightarrow> (Throws TypeError, svg)
      | a \<Rightarrow> (Returns (), svg @ [slice_path ar c dir speed (slice_arc ar speed a)]))"

text \<open>The loop of \<open>meanDirectional.drawRose\<close> visits every key of \<open>data\<close>.\<close>

primrec meanDirectional_drawRose_dirs ::
  "'n arith \<Rightarrow> 'n dataset \<Rightarrow> 'n center \<Rightarrow> 'n angles \<Rightarrow> 'n surface \<Rightarrow> unit outcome \<times> 'n surface" where
  "meanDirectional_drawRose_dirs ar [] c angs svg = (Returns (), svg)"
| "meanDirectional_drawRose_dirs ar (e # es) c angs svg =
     (case drawSpeedSlice ar svg c (fst e) (snd e) angs of
        (Returns u, svg') \<Rightarrow> meanDirectional_drawRose_dirs ar es c angs svg'
      | (Throws err, svg') \<Rightarrow> (Throws err, svg')
      | (Diverges, svg') \<Rightarrow> (Diverges, svg'))"

definition meanDirectional_default_data :: "real dataset" where
  "meanDirectional_default_data =
     [(''N'', Num 10), (''NE'', Num 20), (''E'', Num 30), (''SE'', Num 40),
      (''S'', Num 50), (''SW'', Num 60), (''W'', Num 70), (''NW'', Num 80)]"

definition meanDirectional_drawRose ::
  "'n arith \<Rightarrow> 'n dataset option \<Rightarrow> 'n center option \<Rightarrow> 'n surface option
     \<Rightarrow> unit outcome \<times> 'n surface" where
  "meanDirectional_drawRose ar data_arg center_arg svg_arg =
     (let data = (case data_arg of Some d \<Rightarrow> d
                  | None \<Rightarrow> literal_data ar meanDirectional_default_data);
          c = (case center_arg of Some c \<Rightarrow> c | None \<Rightarrow> default_center ar);
          svg = (case svg_arg of Some s \<Rightarrow> s | None \<Rightarrow> []);
          directions = getDirections data;
          angs = getAngles ar directions
      in case drawSpeedCircles ar svg c of
           None \<Rightarrow> (Diverges, svg)
         | Some svg1 \<Rightarrow> meanDirectional_drawRose_dirs ar data c angs svg1)"

section \<open>Reading the surface\<close>

text \<open>The geometry of the emitted elements: arcs of paths, radii of circles, rectangles.\<close>

fun arcs_of_settings :: "(slot \<times> 'n aval) list \<Rightarrow> 'n arc list" where
  "arcs_of_settings [] = []"
| "arcs_of_settings ((Attr k, Arc arc0) # ss) =
     (if k = ''d'' then arc0 # arcs_of_settings ss else arcs_of_settings ss)"
| "arcs_of_settings (s # ss) = arcs_of_settings ss"

definition arcs_of :: "'n surface \<Rightarrow> 'n arc list" where
  "arcs_of svg = concat (map (\<lambda>el. if fst el = ''path'' then arcs_of_settings (snd el) else []) svg)"

definition arc_radii :: "'n arc \<Rightarrow> 'n jsnum \<times> 'n jsnum" where
  "arc_radii arc0 = (innerRadius arc0, outerRadius arc0)"

definition attr_num :: "'n element \<Rightarrow> string \<Rightarrow> 'n jsnum" where
  "attr_num el k = (case map_of (snd el) (Attr k) of Some (Number n) \<Rightarrow> n | _ \<Rightarrow> None)"

definition circle_radii :: "'n surface \<Rightarrow> 'n jsnum list" where
  "circle_radii svg = map (\<lambda>el. attr_num el ''r'') (filter (\<lambda>el. fst el = ''circle'') svg)"



section \<open>What the specification says, for comparison\<close>

text \<open>
  Section 4.1 of the specification: slice \<open>i\<close> of \<open>n\<close> starts at \<open>360/n * (i - 0.5)\<close>
  and ends at \<open>360/n * (i + 0.5)\<close>; zero directions are rejected with \<open>InvalidInput\<close>.
\<close>

datatype spec_error = InvalidInput

definition slice_spec :: "nat \<Rightarrow> nat \<Rightarrow> real angle_span" where
  "slice_spec n i = \<lparr>start = 360 / real n * (real i - 0.5), finish = 360 / real n * (real i + 0.5)\<rparr>"

definition getAngles_spec :: "string list \<Rightarrow> spec_error + real angles" where
  "getAngles_spec directions =
     (if directions = [] then Inl InvalidInput
      else Inr (map (\<lambda>i. (directions ! i, slice_spec (length directions) i)) [0..<length directions]))"

text \<open>
  The same slice as the source computes it in a given arithmetic: the factor of slice
  \<open>i\<close> is reached from \<open>-0.5\<close> by \<open>i\<close> increments, and start and end are the
  products of \<open>360/n\<close> with the factor before and after the next increment.
\<close>

primrec factor_at :: "'n arith \<Rightarrow> nat \<Rightarrow> 'n" where
  "factor_at ar 0 = jnum ar (- 0.5)"
| "factor_at ar (Suc i) = jadd ar (factor_at ar i) (jnum ar 1)"

definition slice_at :: "'n arith \<Rightarrow> nat \<Rightarrow> nat \<Rightarrow> 'n angle_span" where
  "slice_at ar n i =
     \<lparr>start = jmul ar (jdiv ar (jnum ar 360) (jnum ar (real n))) (factor_at ar i),
      finish = jmul ar (jdiv ar (jnum ar 360) (jnum ar (real n))) (factor_at ar (Suc i))\<rparr>"

text \<open>
  Section 4.2 of the specification: the total of a direction is the sum of its bin
  frequencies plus the calm value (0 when there is no \<open>"calm"\<close> key); the domain is the
  largest total rounded up to a multiple of ten, and 0 when there is no direction.
\<close>

definition arm_sum :: "real jsval \<Rightarrow> real" where
  "arm_sum v = sum_list (map snd (for_in v))"

definition calm_spec :: "real dataset \<Rightarrow> real" where
  "calm_spec data = (case map_of data ''calm'' of Some (Num c) \<Rightarrow> c | _ \<Rightarrow> 0)"

definition arm_totals_spec :: "real dataset \<Rightarrow> real list" where
  "arm_totals_spec data =
     map (\<lambda>e. arm_sum (snd e) + calm_spec data) (filter (\<lambda>e. fst e \<noteq> ''calm'') data)"

definition domain_spec :: "real dataset \<Rightarrow> real" where
  "domain_spec data =
     (let totals = arm_totals_spec data
      in if totals = [] then 0 else of_int \<lceil>Max (set totals) / 10\<rceil> * 10)"

text \<open>
  Sections 4.3 and 4.4 of the specification: the bins of a direction are stacked outwards
  from an initial offset; each bin spans from the current offset to the offset plus its
  value, and the offset advances by that value.
\<close>

primrec stack_spec :: "'n arith \<Rightarrow> 'n jsnum \<Rightarrow> 'n list \<Rightarrow> ('n jsnum \<times> 'n jsnum) list" where
  "stack_spec ar offset [] = []"
| "stack_spec ar offset (v # vs) =
     (offset, plus_num ar offset v) # stack_spec ar (plus_num ar offset v) vs"


text \<open>A label is styled when the style table has it or \<open>Object.prototype\<close> does.\<close>

definition styled :: "(string \<times> 'a) list \<Rightarrow> string \<Rightarrow> bool" where
  "styled table k = (k \<in> fst ` set table \<or> k \<in> set object_prototype_keys)"

section \<open>Exact arithmetic\<close>

lemma exact_simps [simp]:
  "jnum exact r = r"
  "jadd exact a b = a + b"
  "jsub exact a b = a - b"
  "jmul exact a b = a * b"
  "jdiv exact a b = a / b"
  "jceil exact a = of_int \<lceil>a\<rceil>"
  "jlt exact a b = (a < b)"
  "jge exact a b = (a \<ge> b)"
  by (simp_all add: exact_def)

lemma for_down_exact: "for_down exact v bound = Some (countdown v bound)"
proof (induction v bound rule: countdown.induct)
  case (1 v bound)
  show ?case
  proof (cases "bound \<le> v")
    case True
    then show ?thesis
      using "1.IH" by (subst for_down.simps, subst countdown.simps) simp
  next
    case False
    then show ?thesis
      by (subst for_down.simps, subst countdown.simps) simp
  qed
qed

lemma countdown_80: "countdown 80 5 = [80, 70, 60, 50, 40, 30, 20, 10]"
  by (simp add: countdown.simps [of 80] countdown.simps [of 70] countdown.simps [of 60]
      countdown.simps [of 50] countdown.simps [of 40] countdown.simps [of 30]
      countdown.simps [of 20] countdown.simps [of 10] countdown.simps [of 0])

text \<open>
  In any arithmetic the loop ends when subtracting 10 lowers some measure of the counter
  for as long as the loop condition holds.
\<close>

lemma for_down_terminates:
  fixes m :: "'n \<Rightarrow> nat"
  assumes "\<And>v. jge ar v bound \<Longrightarrow> m (jsub ar v (jnum ar 10)) < m v"
  shows "\<exists>vs. for_down ar v bound = Some vs"
proof (induction "m v" arbitrary: v rule: less_induct)
  case less
  show ?case
  proof (cases "jge ar v bound")
    case True
    then obtain vs where "for_down ar (jsub ar v (jnum ar 10)) bound = Some vs"
      using less [OF assms [OF True]] by blast
    then show ?thesis using True by (subst for_down.simps) simp
  next
    case False
    then show ?thesis by (subst for_down.simps) simp
  qed
qed

section \<open>Surfaces\<close>

lemma foldl_append_concat: "foldl (\<lambda>s x. s @ f x) svg xs = svg @ concat (map f xs)"
  by (induction xs arbitrary: svg) simp_all

lemma foldl_append_map: "foldl (\<lambda>s x. s @ [f x]) svg xs = svg @ map f xs"
  by (induction xs arbitrary: svg) simp_all

lemma arcs_of_append: "arcs_of (a @ b) = arcs_of a @ arcs_of b"
  by (simp add: arcs_of_def)


lemma circle_radii_append: "circle_radii (a @ b) = circle_radii a @ circle_radii b"
  by (simp add: circle_radii_def)


lemma property_styled: "styled table k \<Longrightarrow> property table k \<noteq> Missing"
  by (auto simp: property_def styled_def map_of_eq_None_iff split: option.splits)

lemma property_not_styled:
  assumes "\<not> styled table k"
  shows "property table k = Missing"
proof -
  have "map_of table k = None" and "k \<notin> set object_prototype_keys"
    using assms by (simp_all add: styled_def map_of_eq_None_iff)
  then show ?thesis by (simp add: property_def)
qed

section \<open>The angle calculator\<close>








lemma slice_at_contiguous: "finish (slice_at ar n i) = start (slice_at ar n (Suc i))"
  by (simp add: slice_at_def)



















text \<open>
  C3 (as amended). With zero directions \<open>getAngles\<close> returns the empty object in every
  arithmetic: the loop body, which holds the only division, does not run, and nothing is
  raised. A frequency rose for a dataset without keys returns normally and leaves the
  surface as it was.
\<close>

theorem getAngles_empty:
  "getAngles ar [] = [] \<and> drawRose exact (Some []) (Some c) (Some svg) = (Returns (), svg)"
  by (simp add: getAngles_def drawRose_def getDirections_def drawFrequencyCircles_def
      domain_def maxLength_def for_down_exact countdown.simps [of 0 5])

text \<open>
  C3 as stated fails: the specification rejects the empty list with \<open>InvalidInput\<close>,
  \<open>getAngles\<close> returns normally.
\<close>

theorem getAngles_empty_counterexample:
  "getAngles_spec [] = Inl InvalidInput \<and> Inr (getAngles exact []) \<noteq> getAngles_spec []"
  by (simp add: getAngles_spec_def getAngles_def)

section \<open>The domain calculator\<close>

lemma sum_bins_eq: "sum_bins exact bs len = len + sum_list (map snd bs)"
  by (induction bs arbitrary: len) simp_all

lemma maxLength_loop_dirs:
  "''calm'' \<notin> fst ` set es \<Longrightarrow>
   maxLength_loop exact es mx (Num c) len = fold max (map (\<lambda>e. arm_sum (snd e) + c) es) mx"
proof (induction es arbitrary: mx len)
  case Nil
  show ?case by simp
next
  case (Cons e es)
  have "fst e \<noteq> ''calm''" and rest: "''calm'' \<notin> fst ` set es"
    using Cons.prems by auto
  then show ?case
    by (simp add: Cons.IH [OF rest] sum_bins_eq arm_sum_def Let_def max_def)
qed

lemma fold_max_Max: "fold max xs (m::real) = Max (insert m (set xs))"
  using Max.set_eq_fold [of m xs] by simp

lemma filter_dirs:
  "''calm'' \<notin> fst ` set dirs \<Longrightarrow> filter (\<lambda>e. fst e \<noteq> ''calm'') dirs = dirs"
  by (induction dirs) auto

lemma map_of_no_calm: "''calm'' \<notin> fst ` set dirs \<Longrightarrow> map_of dirs ''calm'' = None"
  by (simp add: map_of_eq_None_iff)

lemma Max_insert_below:
  fixes m :: real
  assumes "finite S" "x \<in> S" "m \<le> x"
  shows "Max (insert m S) = Max S"
proof -
  have "S \<noteq> {}" using assms(2) by auto
  then have "Max (insert m S) = max m (Max S)" using assms(1) by simp
  moreover have "m \<le> Max S" using assms by (meson Max_ge order_trans)
  ultimately show ?thesis by simp
qed

text \<open>
  In exact arithmetic, when \<open>"calm"\<close> is the first key, or is missing, and no value is
  negative, \<open>maxLength\<close> is the largest total of the specification.
\<close>

lemma maxLength_calm_first:
  assumes nc: "''calm'' \<notin> fst ` set dirs" and ne: "dirs \<noteq> []" and c0: "0 \<le> c"
    and nonneg: "\<forall>e\<in>set dirs. 0 \<le> arm_sum (snd e)"
  shows "maxLength exact ((''calm'', Num c) # dirs) =
         Max (set (arm_totals_spec ((''calm'', Num c) # dirs)))"
proof -
  let ?ts = "map (\<lambda>e. arm_sum (snd e) + c) dirs"
  have ml: "maxLength exact ((''calm'', Num c) # dirs) = Max (insert (max 0 c) (set ?ts))"
    using nc by (simp add: maxLength_def maxLength_loop_dirs fold_max_Max max_def)
  have totals: "arm_totals_spec ((''calm'', Num c) # dirs) = ?ts"
    using nc by (simp add: arm_totals_spec_def calm_spec_def filter_dirs)
  obtain e where e: "e \<in> set dirs" using ne by (cases dirs) auto
  have "arm_sum (snd e) + c \<in> set ?ts" using e by auto
  moreover have "max 0 c \<le> arm_sum (snd e) + c" using e nonneg c0 by auto
  ultimately have "Max (insert (max 0 c) (set ?ts)) = Max (set ?ts)"
    by (intro Max_insert_below) auto
  then show ?thesis by (simp only: ml totals)
qed

lemma maxLength_no_calm:
  assumes nc: "''calm'' \<notin> fst ` set dirs" and ne: "dirs \<noteq> []"
    and nonneg: "\<forall>e\<in>set dirs. 0 \<le> arm_sum (snd e)"
  shows "maxLength exact dirs = Max (set (arm_totals_spec dirs))"
proof -
  let ?ts = "map (\<lambda>e. arm_sum (snd e) + 0) dirs"
  have ml: "maxLength exact dirs = Max (insert 0 (set ?ts))"
    using nc maxLength_loop_dirs [of dirs 0 0 0] by (simp add: maxLength_def fold_max_Max)
  have totals: "arm_totals_spec dirs = ?ts"
    using nc by (simp add: arm_totals_spec_def calm_spec_def filter_dirs map_of_no_calm)
  obtain e where e: "e \<in> set dirs" using ne by (cases dirs) auto
  have "arm_sum (snd e) + 0 \<in> set ?ts" using e by auto
  moreover have "0 \<le> arm_sum (snd e) + 0" using e nonneg by auto
  ultimately have "Max (insert 0 (set ?ts)) = Max (set ?ts)"
    by (intro Max_insert_below) auto
  then show ?thesis by (simp only: ml totals)
qed

lemma domain_calm_first:
  assumes "''calm'' \<notin> fst ` set dirs" and "dirs \<noteq> []" and "0 \<le> c"
    and "\<forall>e\<in>set dirs. 0 \<le> arm_sum (snd e)"
  shows "domain exact ((''calm'', Num c) # dirs) = domain_spec ((''calm'', Num c) # dirs)"
proof -
  have "arm_totals_spec ((''calm'', Num c) # dirs) \<noteq> []"
    using assms(1,2) by (simp add: arm_totals_spec_def filter_dirs)
  then show ?thesis
    by (simp add: domain_def domain_spec_def Let_def maxLength_calm_first [OF assms])
qed

lemma domain_no_calm:
  assumes "''calm'' \<notin> fst ` set dirs" and "\<forall>e\<in>set dirs. 0 \<le> arm_sum (snd e)"
  shows "domain exact dirs = domain_spec dirs"
proof (cases "dirs = []")
  case True
  then show ?thesis
    by (simp add: domain_def domain_spec_def maxLength_def arm_totals_spec_def)
next
  case False
  then have "arm_totals_spec dirs \<noteq> []"
    using assms(1) by (simp add: arm_totals_spec_def filter_dirs)
  then show ?thesis
    by (simp add: domain_def domain_spec_def Let_def maxLength_no_calm [OF assms(1) False assms(2)])
qed

text \<open>
  In exact arithmetic the domain of every dataset is a non-negative multiple of ten, not
  below \<open>maxLength\<close>.
\<close>

lemma maxLength_loop_ge: "mx \<le> maxLength_loop exact es mx calm len"
proof (induction es arbitrary: mx calm len)
  case Nil
  show ?case by simp
next
  case (Cons e es)
  have step: "mx \<le> gt exact mx v" for v by (cases v) auto
  show ?case
    using order_trans [OF step Cons.IH] by (simp add: Let_def)
qed

lemma maxLength_nonneg: "0 \<le> maxLength exact data"
  unfolding maxLength_def using maxLength_loop_ge [of 0 data] by simp

lemma domain_multiple_of_ten: "\<exists>k::nat. domain exact data = 10 * real k"
proof -
  have "0 \<le> \<lceil>maxLength exact data / 10\<rceil>" using maxLength_nonneg [of data] by simp
  then obtain k :: nat where "\<lceil>maxLength exact data / 10\<rceil> = int k"
    using nonneg_int_cases by blast
  then have "domain exact data = 10 * real k" by (simp add: domain_def)
  then show ?thesis ..
qed

lemma domain_ge_maxLength: "maxLength exact data \<le> domain exact data"
proof -
  have "maxLength exact data / 10 \<le> of_int \<lceil>maxLength exact data / 10\<rceil>"
    by (rule le_of_int_ceiling)
  then show ?thesis unfolding domain_def exact_simps by linarith
qed

text \<open>
  A missing \<open>"calm"\<close> key counts as 0 in \<open>maxLength\<close>: in exact arithmetic, adding
  \<open>"calm": 0\<close> at any position does not change the result.
\<close>

lemma maxLength_loop_calm_zero:
  assumes "''calm'' \<notin> fst ` set xs" and "len \<le> mx"
  shows "maxLength_loop exact (xs @ (''calm'', Num 0) # ys) mx (Num 0) len =
         maxLength_loop exact (xs @ ys) mx (Num 0) len"
  using assms
proof (induction xs arbitrary: mx len)
  case Nil
  then show ?case by simp
next
  case (Cons e xs)
  have e: "fst e \<noteq> ''calm''" and rest: "''calm'' \<notin> fst ` set xs"
    using Cons.prems(1) by auto
  define len' where "len' = sum_bins exact (for_in (snd e)) 0"
  have le: "len' \<le> gt exact mx (Some (len' + 0))" by simp
  show ?case
    using Cons.IH [OF rest le] e by (simp add: len'_def Let_def)
qed

lemma domain_calm_zero:
  "''calm'' \<notin> fst ` set xs \<Longrightarrow>
   domain exact (xs @ (''calm'', Num 0) # ys) = domain exact (xs @ ys)"
  by (simp add: domain_def maxLength_def maxLength_loop_calm_zero)

text \<open>
  C1 (code defect). The domain is specified as the largest arm total rounded up to a
  multiple of ten, for any key order. \<open>maxLength\<close> picks the calm value up only when its
  loop reaches the \<open>"calm"\<close> key, so the directions visited before it are measured
  without it. For \<open>{"N": {"0-10": 15}, "NNE": {"0-10": 1}, "calm": 8}\<close> the arm of \<open>N\<close>
  has length 23 and the specified domain is 30, but \<open>domain\<close> returns 20.
\<close>

theorem domain_calm_last:
  "domain exact [(''N'', Obj [(''0-10'', 15)]), (''NNE'', Obj [(''0-10'', 1)]), (''calm'', Num 8)] = 20
   \<and> domain_spec [(''N'', Obj [(''0-10'', 15)]), (''NNE'', Obj [(''0-10'', 1)]), (''calm'', Num 8)] = 30
   \<and> arm_totals_spec [(''N'', Obj [(''0-10'', 15)]), (''NNE'', Obj [(''0-10'', 1)]), (''calm'', Num 8)]
       = [23, 9]"
  by (simp add: domain_def maxLength_def domain_spec_def arm_totals_spec_def arm_sum_def
      calm_spec_def)

section \<open>The direction with the shortest arm\<close>

lemma directionWithMinimumLength_loop_nonneg:
  assumes "''calm'' \<notin> fst ` set es" and "global_calm g = Some (Num c)"
    and "\<forall>e\<in>set es. mn \<le> arm_sum (snd e) + c"
  shows "directionWithMinimumLength_loop exact es (mn, mindir) len g = (Returns mindir, g)"
  using assms
proof (induction es arbitrary: len)
  case Nil
  show ?case by simp
next
  case (Cons e es)
  have e: "fst e \<noteq> ''calm''" and rest: "''calm'' \<notin> fst ` set es"
    using Cons.prems(1) by auto
  have tot: "mn \<le> arm_sum (snd e) + c" and tots: "\<forall>e\<in>set es. mn \<le> arm_sum (snd e) + c"
    using Cons.prems(3) by auto
  have "\<not> sum_list (map snd (for_in (snd e))) + c < mn"
    using tot by (simp add: arm_sum_def)
  then show ?case
    using Cons.IH [OF rest Cons.prems(2) tots] e Cons.prems(2)
    by (simp add: sum_bins_eq)
qed

text \<open>
  In exact arithmetic, with \<open>"calm"\<close> as the first key, a non-negative calm value and
  non-negative arm totals, no value is below the initial minimum 0, and the result is the
  empty string.
\<close>

lemma directionWithMinimumLength_calm_first:
  assumes "''calm'' \<notin> fst ` set dirs" and "0 \<le> c"
    and "\<forall>e\<in>set dirs. 0 \<le> arm_sum (snd e) + c"
  shows "directionWithMinimumLength exact ((''calm'', Num c) # dirs) g =
         (Returns '''', g\<lparr>global_calm := Some (Num c)\<rparr>)"
  using assms
  by (simp add: directionWithMinimumLength_def directionWithMinimumLength_loop_nonneg)

text \<open>
  C10 (code defect). \<open>directionWithMinimumLength\<close> uses \<open>calm\<close> without declaring it,
  unlike \<open>maxLength\<close>. For the dataset \<open>{"N": {"0-10": 3}}\<close>, whose only arm total is
  non-negative, and while no earlier call has created the global \<open>calm\<close>, evaluating
  \<open>len+calm\<close> raises a ReferenceError instead of returning the empty string. The same
  happens in every arithmetic and for every value of the bin.
\<close>

theorem directionWithMinimumLength_undeclared_calm:
  "directionWithMinimumLength exact [(''N'', Obj [(''0-10'', 3)])] \<lparr>global_calm = None\<rparr>
     = (Throws ReferenceError, \<lparr>global_calm = None\<rparr>)
   \<and> directionWithMinimumLength ar [(''N'', Obj [(''0-10'', v)])] \<lparr>global_calm = None\<rparr>
     = (Throws ReferenceError, \<lparr>global_calm = None\<rparr>)"
  by (simp add: directionWithMinimumLength_def)

section \<open>Reference circles of the mean directional rose\<close>

lemma drawSpeedCircles_exact:
  "drawSpeedCircles exact svg c = Some (svg @ map (speed_circle c) [80, 70, 60, 50, 40, 30, 20, 10])"
  by (simp only: drawSpeedCircles_def exact_simps for_down_exact countdown_80 foldl_append_map
      option.map)

lemma circle_radii_speed_circles:
  "circle_radii (map (speed_circle c) rs) = map Some rs"
  by (induction rs) (simp_all add: circle_radii_def speed_circle_def attr_num_def)

lemma circle_radii_paths: "\<forall>el\<in>set els. fst el = ''path'' \<Longrightarrow> circle_radii els = []"
  by (induction els) (simp_all add: circle_radii_def)

lemma drawSpeedSlice_appends:
  "\<exists>els. snd (drawSpeedSlice ar svg c dir speed angs) = svg @ els \<and> (\<forall>el\<in>set els. fst el = ''path'')"
  by (cases "property angs dir") (simp_all add: drawSpeedSlice_def slice_path_def)

lemma meanDirectional_drawRose_dirs_appends:
  "\<exists>els. snd (meanDirectional_drawRose_dirs ar es c angs svg) = svg @ els
         \<and> (\<forall>el\<in>set els. fst el = ''path'')"
proof (induction es arbitrary: svg)
  case Nil
  show ?case by simp
next
  case (Cons e es)
  obtain r svg' where step: "drawSpeedSlice ar svg c (fst e) (snd e) angs = (r, svg')"
    by (cases "drawSpeedSlice ar svg c (fst e) (snd e) angs")
  obtain els where els: "svg' = svg @ els" "\<forall>el\<in>set els. fst el = ''path''"
    using drawSpeedSlice_appends [of ar svg c "fst e" "snd e" angs] step by auto
  show ?case
  proof (cases r)
    case (Throws err)
    then show ?thesis using step els by auto
  next
    case Diverges
    then show ?thesis using step els by auto
  next
    case (Returns u)
    obtain els' where els': "snd (meanDirectional_drawRose_dirs ar es c angs svg') = svg' @ els'"
      "\<forall>el\<in>set els'. fst el = ''path''"
      using Cons.IH [of svg'] by auto
    have "snd (meanDirectional_drawRose_dirs ar (e # es) c angs svg) = svg @ (els @ els')"
      using step Returns els els' by simp
    moreover have "\<forall>el\<in>set (els @ els'). fst el = ''path''"
      using els els' by auto
    ultimately show ?thesis by blast
  qed
qed

lemma meanDirectional_circle_radii:
  "circle_radii (snd (meanDirectional_drawRose_dirs exact es c angs
      (svg @ map (speed_circle c) [80, 70, 60, 50, 40, 30, 20, 10]))) =
   circle_radii svg @ map Some [80, 70, 60, 50, 40, 30, 20, 10]"
proof -
  let ?svg1 = "svg @ map (speed_circle c) [80, 70, 60, 50, 40, 30, 20, 10]"
  obtain els where els:
    "snd (meanDirectional_drawRose_dirs exact es c angs ?svg1) = ?svg1 @ els"
    "\<forall>el\<in>set els. fst el = ''path''"
    using meanDirectional_drawRose_dirs_appends by blast
  have "circle_radii (snd (meanDirectional_drawRose_dirs exact es c angs ?svg1)) =
        circle_radii (?svg1 @ els)"
    by (simp only: els(1))
  also have "\<dots> = circle_radii ?svg1"
    by (simp only: circle_radii_append [of ?svg1 els] circle_radii_paths [OF els(2)] append_Nil2)
  also have "\<dots> = circle_radii svg @ map Some [80, 70, 60, 50, 40, 30, 20, 10]"
    by (simp only: circle_radii_append circle_radii_speed_circles)
  finally show ?thesis .
qed

text \<open>
  C7 (as amended). Whatever the data, the centre and the outcome of the call, the mean
  directional rose adds exactly eight reference circles to the surface, with the radii
  80, 70, 60, 50, 40, 30, 20, 10 in this order: the loop stops when the radius falls
  below 5, which from 80 in steps of 10 happens after radius 10. The counter takes only
  these values and 0, on which doubles are exact.
\<close>

theorem meanDirectional_reference_circles:
  "circle_radii (snd (meanDirectional_drawRose exact data_arg center_arg svg_arg)) =
   circle_radii (case svg_arg of Some s \<Rightarrow> s | None \<Rightarrow> [])
     @ map Some [80, 70, 60, 50, 40, 30, 20, 10]"
  unfolding meanDirectional_drawRose_def Let_def drawSpeedCircles_exact option.case
  by (rule meanDirectional_circle_radii)

text \<open>
  C7 as stated fails: no circle of radius 5 is drawn. For the built-in data on a new
  surface the last circle has radius 10.
\<close>

theorem meanDirectional_no_radius_5_counterexample:
  "Some 5 \<notin> set (circle_radii (snd (meanDirectional_drawRose exact None None None)))
   \<and> last (circle_radii (snd (meanDirectional_drawRose exact None None None))) = Some 10"
proof -
  have "circle_radii (snd (meanDirectional_drawRose exact None None None)) =
        circle_radii [] @ map Some [80, 70, 60, 50, 40, 30, 20, 10]"
    unfolding meanDirectional_drawRose_def Let_def drawSpeedCircles_exact option.case
    by (rule meanDirectional_circle_radii)
  then show ?thesis by (simp add: circle_radii_def)
qed

section \<open>The arcs of the mean directional rose\<close>

lemma getDirections_loop_eq:
  "getDirections_loop es acc = acc @ map fst (filter (\<lambda>e. fst e \<noteq> ''calm'') es)"
  by (induction es arbitrary: acc) simp_all

lemma getDirections_eq: "getDirections data = map fst (filter (\<lambda>e. fst e \<noteq> ''calm'') data)"
  by (simp add: getDirections_def getDirections_loop_eq)


lemma getAngles_loop_keys: "fst ` set (getAngles_loop ar s f ds angs) = fst ` set angs \<union> set ds"
  by (induction ds arbitrary: f angs) (auto simp: dom_update)

lemma getAngles_defined:
  assumes "d \<in> set ds"
  shows "\<exists>a. map_of (getAngles ar ds) d = Some a"
proof -
  have "d \<in> fst ` set (getAngles ar ds)"
    using assms by (simp add: getAngles_def getAngles_loop_keys)
  then show ?thesis by (metis map_of_eq_None_iff not_Some_eq)
qed

lemma angles_of_data_defined:
  assumes "e \<in> set data" and "fst e \<noteq> ''calm''"
  shows "\<exists>a. map_of (getAngles ar (getDirections data)) (fst e) = Some a"
  using assms by (intro getAngles_defined) (auto simp: getDirections_eq)

lemma property_Some: "map_of table k = Some v \<Longrightarrow> property table k = Own v"
  by (simp add: property_def)







section \<open>The frequency rose\<close>

lemma arcs_of_frequency_circles: "arcs_of (concat (map (frequency_circle ar c) fs)) = []"
  by (induction fs) (simp_all add: arcs_of_def frequency_circle_def)

lemma drawFrequencyCircles_Some:
  "for_down ar dmn (jnum ar 5) = Some fs \<Longrightarrow>
   drawFrequencyCircles ar dmn c svg = Some (svg @ concat (map (frequency_circle ar c) fs))"
  by (simp add: drawFrequencyCircles_def foldl_append_concat)

lemma arcs_of_settings_other:
  "k \<noteq> ''d'' \<Longrightarrow> arcs_of_settings ((Attr k, v) # ss) = arcs_of_settings ss"
  by (cases v) simp_all

lemma arcs_of_chunk_path: "arcs_of [chunk_path ar dir bin freq c arc0 fill] = [arc0]"
  by (simp add: arcs_of_def chunk_path_def arcs_of_settings_other)


lemma drawChunk_styled:
  assumes "map_of angs dir = Some a" and "styled config bin"
  shows "\<exists>el. drawChunk ar dir bin freq offset c angs svg =
                (Returns (plus_num ar offset freq), svg @ [el])
             \<and> fst el = ''path''
             \<and> arcs_of [el] = [chunk_arc ar offset freq (Own a)]"
proof (cases "property config bin")
  case (Own fill)
  then show ?thesis
    using assms(1)
    by (simp add: drawChunk_def property_Some arcs_of_chunk_path) (simp add: chunk_path_def)
next
  case Inherited
  then show ?thesis
    using assms(1)
    by (simp add: drawChunk_def property_Some arcs_of_chunk_path) (simp add: chunk_path_def)
next
  case Missing
  then show ?thesis using property_styled [OF assms(2)] by simp
qed

lemma drawChunk_not_styled:
  assumes "map_of angs dir = Some a" and "\<not> styled config bin"
  shows "drawChunk ar dir bin freq offset c angs svg =
           (Throws TypeError,
            svg @ [(''path'', [(Attr ''d'', Arc (chunk_arc ar offset freq (Own a)))])])"
  using assms(1) property_not_styled [OF assms(2)]
  by (simp add: drawChunk_def property_Some)

lemma drawRose_bins_styled:
  assumes "map_of angs dir = Some a" and "\<forall>b\<in>set bs. styled config (fst b)"
  shows "\<exists>els offset'. drawRose_bins ar dir bs offset c angs svg = (Returns offset', svg @ els)
           \<and> map arc_radii (arcs_of els) = stack_spec ar offset (map snd bs)
           \<and> (\<forall>el\<in>set els. fst el = ''path'') \<and> length els = length bs"
  using assms(2)
proof (induction bs arbitrary: offset svg)
  case Nil
  show ?case by (simp add: arcs_of_def)
next
  case (Cons b bs)
  have b: "styled config (fst b)" and rest: "\<forall>b\<in>set bs. styled config (fst b)"
    using Cons.prems by auto
  obtain el where el:
    "drawChunk ar dir (fst b) (snd b) offset c angs svg
       = (Returns (plus_num ar offset (snd b)), svg @ [el])"
    "fst el = ''path''"
    "arcs_of [el] = [chunk_arc ar offset (snd b) (Own a)]"
    using drawChunk_styled [OF assms(1) b] by blast
  obtain els offset' where els:
    "drawRose_bins ar dir bs (plus_num ar offset (snd b)) c angs (svg @ [el])
       = (Returns offset', (svg @ [el]) @ els)"
    "map arc_radii (arcs_of els) = stack_spec ar (plus_num ar offset (snd b)) (map snd bs)"
    "\<forall>el\<in>set els. fst el = ''path''" "length els = length bs"
    using Cons.IH [OF rest] by blast
  have "drawRose_bins ar dir (b # bs) offset c angs svg = (Returns offset', svg @ (el # els))"
    using el(1) els(1) by simp
  moreover have "map arc_radii (arcs_of (el # els)) = stack_spec ar offset (map snd (b # bs))"
    using arcs_of_append [of "[el]" els] el(3) els(2)
    by (simp add: arc_radii_def chunk_arc_def)
  moreover have "\<forall>x\<in>set (el # els). fst x = ''path''" using el(2) els(3) by simp
  moreover have "length (el # els) = length (b # bs)" using els(4) by simp
  ultimately show ?case by blast
qed

lemma drawRose_bins_fails:
  assumes "map_of angs dir = Some a" and "\<forall>b\<in>set bs1. styled config (fst b)"
    and "\<not> styled config (fst b)"
  shows "\<exists>els arc0. drawRose_bins ar dir (bs1 @ b # bs2) offset c angs svg =
             (Throws TypeError, svg @ els @ [(''path'', [(Attr ''d'', Arc arc0)])])
           \<and> map arc_radii (arcs_of (els @ [(''path'', [(Attr ''d'', Arc arc0)])])) =
               stack_spec ar offset (map snd (bs1 @ [b]))
           \<and> (\<forall>el\<in>set els. fst el = ''path'') \<and> length els = length bs1"
  using assms(2)
proof (induction bs1 arbitrary: offset svg)
  case Nil
  have "drawRose_bins ar dir ([] @ b # bs2) offset c angs svg =
          (Throws TypeError,
           svg @ [] @ [(''path'', [(Attr ''d'', Arc (chunk_arc ar offset (snd b) (Own a)))])])"
    by (simp add: drawChunk_not_styled [OF assms(1) assms(3)])
  moreover have "map arc_radii (arcs_of ([] @
        [(''path'', [(Attr ''d'', Arc (chunk_arc ar offset (snd b) (Own a)))])])) =
      stack_spec ar offset (map snd ([] @ [b]))"
    by (simp add: arcs_of_def arc_radii_def chunk_arc_def)
  ultimately show ?case by fastforce
next
  case (Cons b1 bs1)
  have b1: "styled config (fst b1)" and rest: "\<forall>b\<in>set bs1. styled config (fst b)"
    using Cons.prems by auto
  obtain el where el:
    "drawChunk ar dir (fst b1) (snd b1) offset c angs svg
       = (Returns (plus_num ar offset (snd b1)), svg @ [el])"
    "fst el = ''path''"
    "arcs_of [el] = [chunk_arc ar offset (snd b1) (Own a)]"
    using drawChunk_styled [OF assms(1) b1] by blast
  obtain els arc0 where els:
    "drawRose_bins ar dir (bs1 @ b # bs2) (plus_num ar offset (snd b1)) c angs (svg @ [el]) =
       (Throws TypeError, (svg @ [el]) @ els @ [(''path'', [(Attr ''d'', Arc arc0)])])"
    "map arc_radii (arcs_of (els @ [(''path'', [(Attr ''d'', Arc arc0)])])) =
       stack_spec ar (plus_num ar offset (snd b1)) (map snd (bs1 @ [b]))"
    "\<forall>el\<in>set els. fst el = ''path''" "length els = length bs1"
    using Cons.IH [OF rest] by blast
  have "drawRose_bins ar dir ((b1 # bs1) @ b # bs2) offset c angs svg =
          (Throws TypeError, svg @ (el # els) @ [(''path'', [(Attr ''d'', Arc arc0)])])"
    using el(1) els(1) by simp
  moreover have "map arc_radii (arcs_of ((el # els) @ [(''path'', [(Attr ''d'', Arc arc0)])])) =
      stack_spec ar offset (map snd ((b1 # bs1) @ [b]))"
    using arcs_of_append [of "[el]" "els @ [(''path'', [(Attr ''d'', Arc arc0)])]"] el(3) els(2)
    by (simp add: arc_radii_def chunk_arc_def)
  moreover have "\<forall>x\<in>set (el # els). fst x = ''path''" using el(2) els(3) by simp
  moreover have "length (el # els) = length (b1 # bs1)" using els(4) by simp
  ultimately show ?case by blast
qed

lemma drawRose_dirs_styled:
  assumes "\<forall>e\<in>set es. fst e \<noteq> ''calm'' \<longrightarrow>
             (\<forall>b\<in>set (for_in (snd e)). styled config (fst b))"
    and "\<forall>e\<in>set es. fst e \<noteq> ''calm'' \<longrightarrow> (\<exists>a. map_of angs (fst e) = Some a)"
  shows "\<exists>els. drawRose_dirs ar data es c angs svg = (Returns (), svg @ els)
           \<and> map arc_radii (arcs_of els) =
               concat (map (\<lambda>e. stack_spec ar (member_num data ''calm'') (map snd (for_in (snd e))))
                           (filter (\<lambda>e. fst e \<noteq> ''calm'') es))
           \<and> (\<forall>el\<in>set els. fst el = ''path'')
           \<and> length els = length (concat (map (\<lambda>e. for_in (snd e))
                                               (filter (\<lambda>e. fst e \<noteq> ''calm'') es)))"
  using assms
proof (induction es arbitrary: svg)
  case Nil
  show ?case by (simp add: arcs_of_def)
next
  case (Cons e es)
  have cfgs: "\<forall>e\<in>set es. fst e \<noteq> ''calm'' \<longrightarrow>
                (\<forall>b\<in>set (for_in (snd e)). styled config (fst b))"
    using Cons.prems(1) by auto
  have angs: "\<forall>e\<in>set es. fst e \<noteq> ''calm'' \<longrightarrow> (\<exists>a. map_of angs (fst e) = Some a)"
    using Cons.prems(2) by auto
  show ?case
  proof (cases "fst e = ''calm''")
    case True
    then show ?thesis using Cons.IH [OF cfgs angs, of svg] by simp
  next
    case False
    then obtain a where a: "map_of angs (fst e) = Some a"
      using Cons.prems(2) by auto
    have cfg: "\<forall>b\<in>set (for_in (snd e)). styled config (fst b)"
      using False Cons.prems(1) by auto
    obtain els1 offset' where els1:
      "drawRose_bins ar (fst e) (for_in (snd e)) (member_num data ''calm'') c angs svg
         = (Returns offset', svg @ els1)"
      "map arc_radii (arcs_of els1) =
         stack_spec ar (member_num data ''calm'') (map snd (for_in (snd e)))"
      "\<forall>el\<in>set els1. fst el = ''path''" "length els1 = length (for_in (snd e))"
      using drawRose_bins_styled [OF a cfg] by blast
    obtain els2 where els2:
      "drawRose_dirs ar data es c angs (svg @ els1) = (Returns (), (svg @ els1) @ els2)"
      "map arc_radii (arcs_of els2) =
         concat (map (\<lambda>e. stack_spec ar (member_num data ''calm'') (map snd (for_in (snd e))))
                     (filter (\<lambda>e. fst e \<noteq> ''calm'') es))"
      "\<forall>el\<in>set els2. fst el = ''path''"
      "length els2 = length (concat (map (\<lambda>e. for_in (snd e))
                                         (filter (\<lambda>e. fst e \<noteq> ''calm'') es)))"
      using Cons.IH [OF cfgs angs] by blast
    have "drawRose_dirs ar data (e # es) c angs svg = (Returns (), svg @ (els1 @ els2))"
      using False els1(1) els2(1) by simp
    moreover have "map arc_radii (arcs_of (els1 @ els2)) =
        concat (map (\<lambda>e. stack_spec ar (member_num data ''calm'') (map snd (for_in (snd e))))
                    (filter (\<lambda>e. fst e \<noteq> ''calm'') (e # es)))"
      using False els1(2) els2(2) by (simp add: arcs_of_append)
    moreover have "\<forall>el\<in>set (els1 @ els2). fst el = ''path''"
      using els1(3) els2(3) by auto
    moreover have "length (els1 @ els2) =
        length (concat (map (\<lambda>e. for_in (snd e)) (filter (\<lambda>e. fst e \<noteq> ''calm'') (e # es))))"
      using False els1(4) els2(4) by simp
    ultimately show ?thesis by blast
  qed
qed

lemma drawRose_dirs_fails:
  assumes "\<forall>e\<in>set pre. fst e \<noteq> ''calm'' \<longrightarrow>
             (\<forall>b\<in>set (for_in (snd e)). styled config (fst b))"
    and "\<forall>e\<in>set pre. fst e \<noteq> ''calm'' \<longrightarrow> (\<exists>a. map_of angs (fst e) = Some a)"
    and "dir \<noteq> ''calm''" and "map_of angs dir = Some a"
    and "\<forall>b\<in>set bs1. styled config (fst b)" and "\<not> styled config (fst b)"
  shows "\<exists>els arc0.
           drawRose_dirs ar data (pre @ (dir, Obj (bs1 @ b # bs2)) # post) c angs svg =
             (Throws TypeError, svg @ els @ [(''path'', [(Attr ''d'', Arc arc0)])])
           \<and> map arc_radii (arcs_of (els @ [(''path'', [(Attr ''d'', Arc arc0)])])) =
               concat (map (\<lambda>e. stack_spec ar (member_num data ''calm'') (map snd (for_in (snd e))))
                           (filter (\<lambda>e. fst e \<noteq> ''calm'') pre))
               @ stack_spec ar (member_num data ''calm'') (map snd (bs1 @ [b]))
           \<and> (\<forall>el\<in>set els. fst el = ''path'')
           \<and> length els = length (concat (map (\<lambda>e. for_in (snd e))
                                               (filter (\<lambda>e. fst e \<noteq> ''calm'') pre)))
                            + length bs1"
proof -
  let ?rest = "(dir, Obj (bs1 @ b # bs2)) # post"
  obtain els1 where els1:
    "drawRose_dirs ar data pre c angs svg = (Returns (), svg @ els1)"
    "map arc_radii (arcs_of els1) =
       concat (map (\<lambda>e. stack_spec ar (member_num data ''calm'') (map snd (for_in (snd e))))
                   (filter (\<lambda>e. fst e \<noteq> ''calm'') pre))"
    "\<forall>el\<in>set els1. fst el = ''path''"
    "length els1 = length (concat (map (\<lambda>e. for_in (snd e))
                                       (filter (\<lambda>e. fst e \<noteq> ''calm'') pre)))"
    using drawRose_dirs_styled [OF assms(1,2)] by blast
  have append: "drawRose_dirs ar data (xs @ ys) c angs s = drawRose_dirs ar data ys c angs s'"
    if "drawRose_dirs ar data xs c angs s = (Returns (), s')" for xs ys s s'
    using that
  proof (induction xs arbitrary: s)
    case Nil
    then show ?case by simp
  next
    case (Cons x xs)
    show ?case
    proof (cases "fst x = ''calm''")
      case True
      then show ?thesis using Cons by simp
    next
      case False
      obtain r s1 where step:
        "drawRose_bins ar (fst x) (for_in (snd x)) (member_num data ''calm'') c angs s = (r, s1)"
        by (cases "drawRose_bins ar (fst x) (for_in (snd x)) (member_num data ''calm'') c angs s")
      show ?thesis
      proof (cases r)
        case (Returns offset')
        then show ?thesis using Cons False step by simp
      next
        case (Throws err)
        then show ?thesis using Cons.prems False step by simp
      next
        case Diverges
        then show ?thesis using Cons.prems False step by simp
      qed
    qed
  qed
  obtain els2 arc0 where els2:
    "drawRose_bins ar dir (bs1 @ b # bs2) (member_num data ''calm'') c angs (svg @ els1) =
       (Throws TypeError, (svg @ els1) @ els2 @ [(''path'', [(Attr ''d'', Arc arc0)])])"
    "map arc_radii (arcs_of (els2 @ [(''path'', [(Attr ''d'', Arc arc0)])])) =
       stack_spec ar (member_num data ''calm'') (map snd (bs1 @ [b]))"
    "\<forall>el\<in>set els2. fst el = ''path''" "length els2 = length bs1"
    using drawRose_bins_fails [OF assms(4,5,6)] by blast
  have "drawRose_dirs ar data (pre @ ?rest) c angs svg =
          (Throws TypeError, svg @ (els1 @ els2) @ [(''path'', [(Attr ''d'', Arc arc0)])])"
    using append [OF els1(1), of ?rest] assms(3) els2(1) by simp
  moreover have "map arc_radii (arcs_of ((els1 @ els2) @ [(''path'', [(Attr ''d'', Arc arc0)])])) =
      concat (map (\<lambda>e. stack_spec ar (member_num data ''calm'') (map snd (for_in (snd e))))
                  (filter (\<lambda>e. fst e \<noteq> ''calm'') pre))
      @ stack_spec ar (member_num data ''calm'') (map snd (bs1 @ [b]))"
    using els1(2) els2(2)
      arcs_of_append [of els1 "els2 @ [(''path'', [(Attr ''d'', Arc arc0)])]"]
    by simp
  moreover have "\<forall>el\<in>set (els1 @ els2). fst el = ''path''"
    using els1(3) els2(3) by auto
  moreover have "length (els1 @ els2) =
      length (concat (map (\<lambda>e. for_in (snd e)) (filter (\<lambda>e. fst e \<noteq> ''calm'') pre)))
      + length bs1"
    using els1(4) els2(4) by simp
  ultimately show ?thesis by blast
qed

text \<open>
  A loop whose counter no longer changes when 10 is subtracted, as happens in floating
  point from \<open>2^57\<close> on, never ends; the frequency rose of such a domain does not return.
\<close>

lemma for_down_stuck:
  assumes "jge ar v bound" and "jsub ar v (jnum ar 10) = v"
  shows "for_down ar v bound = None"
proof (cases "for_down ar v bound")
  case None
  then show ?thesis .
next
  case (Some vs)
  have "\<not> (jge ar v bound \<and> jsub ar v (jnum ar 10) = v)"
  proof (rule for_down.raw_induct
      [where P = "\<lambda>ar v bound vs. \<not> (jge ar v bound \<and> jsub ar v (jnum ar 10) = v)",
        OF _ Some], goal_cases)
    case (1 f ar' v' bound' vs')
    show ?case
    proof
      assume stuck: "jge ar' v' bound' \<and> jsub ar' v' (jnum ar' 10) = v'"
      then obtain ws where "f ar' v' bound' = Some ws"
        using 1(2) by (auto split: Option.bind_splits)
      then show False using 1(1) stuck by blast
    qed
  qed
  then show ?thesis using assms by simp
qed

lemma drawRose_diverges:
  assumes "jge ar (domain ar data) (jnum ar 5)"
    and "jsub ar (domain ar data) (jnum ar 10) = domain ar data"
  shows "fst (drawRose ar (Some data) center_arg svg_arg) = Diverges"
  using for_down_stuck [OF assms]
  by (simp add: drawRose_def drawFrequencyCircles_def)


lemma drawRose_run:
  assumes "for_down ar (domain ar data) (jnum ar 5) = Some fs"
  shows "drawRose ar (Some data) center_arg svg_arg =
           drawRose_dirs ar data data
             (case center_arg of Some c \<Rightarrow> c | None \<Rightarrow> default_center ar)
             (getAngles ar (getDirections data))
             ((case svg_arg of Some s \<Rightarrow> s | None \<Rightarrow> [])
              @ concat (map (frequency_circle ar
                  (case center_arg of Some c \<Rightarrow> c | None \<Rightarrow> default_center ar)) fs))"
  by (simp add: drawRose_def Let_def drawFrequencyCircles_Some [OF assms])



section \<open>The telescope rose\<close>











section \<open>Failing renders and missing calm values\<close>

lemma first_not_styled:
  assumes "\<exists>e\<in>set data. fst e \<noteq> ''calm'' \<and> (\<exists>b\<in>set (for_in (snd e)). \<not> styled table (fst b))"
  shows "\<exists>pre dir bs1 bin v bs2 post.
           data = pre @ (dir, Obj (bs1 @ (bin, v) # bs2)) # post \<and> dir \<noteq> ''calm''
         \<and> (\<forall>e\<in>set pre. fst e \<noteq> ''calm'' \<longrightarrow> (\<forall>b\<in>set (for_in (snd e)). styled table (fst b)))
         \<and> (\<forall>b\<in>set bs1. styled table (fst b)) \<and> \<not> styled table bin"
proof -
  obtain pre e post where e: "data = pre @ e # post"
    "fst e \<noteq> ''calm'' \<and> (\<exists>b\<in>set (for_in (snd e)). \<not> styled table (fst b))"
    "\<forall>y\<in>set pre. \<not> (fst y \<noteq> ''calm'' \<and> (\<exists>b\<in>set (for_in (snd y)). \<not> styled table (fst b)))"
    using split_list_first_prop [OF assms] by blast
  obtain bs1 b bs2 where b: "for_in (snd e) = bs1 @ b # bs2" "\<not> styled table (fst b)"
    "\<forall>y\<in>set bs1. \<not> \<not> styled table (fst y)"
    using split_list_first_prop [of "for_in (snd e)" "\<lambda>b. \<not> styled table (fst b)"] e(2)
    by blast
  have "snd e = Obj (bs1 @ b # bs2)"
    using b(1) by (cases "snd e") simp_all
  then have "e = (fst e, Obj (bs1 @ (fst b, snd b) # bs2))"
    by (simp add: prod_eq_iff)
  then have "data = pre @ (fst e, Obj (bs1 @ (fst b, snd b) # bs2)) # post"
    using e(1) by simp
  moreover have "fst e \<noteq> ''calm''" using e(2) by simp
  moreover have "\<forall>e\<in>set pre. fst e \<noteq> ''calm'' \<longrightarrow>
                   (\<forall>b\<in>set (for_in (snd e)). styled table (fst b))"
    using e(3) by blast
  moreover have "\<forall>b\<in>set bs1. styled table (fst b)" using b(3) by simp
  ultimately show ?thesis using b(2) by blast
qed

text \<open>
  C9 (as amended). The frequency rose does not validate its input and does not emit
  all-or-nothing. Take any arithmetic in which the loop that draws the frequency circles
  ends, and call a bin label styled when \<open>windrose.config\<close> has it or inherits it.

  \<^item> When the bin labels of all directions are styled, the call returns normally for
    frequencies of any sign: after the circles it has appended one path for each bin and
    nothing else, and the values are in the arc radii as they are, offset and offset plus
    value.
  \<^item> When some direction has a bin label that is not styled, the call stops with a
    TypeError at the first such bin. The circles are on the surface, followed by one path
    for each bin before the failing one and by the unfinished path of the failing bin,
    which has its arc and nothing else; the radii of all these arcs are those of the
    stacking, the failing bin included.
  \<^item> These are the only two outcomes.
\<close>

theorem drawRose_emits_before_failing:
  assumes "for_down ar (domain ar data) (jnum ar 5) = Some fs"
  shows
    "((\<forall>e\<in>set data. fst e \<noteq> ''calm'' \<longrightarrow> (\<forall>b\<in>set (for_in (snd e)). styled config (fst b))) \<longrightarrow>
        (\<exists>els. drawRose ar (Some data) (Some c) (Some svg) =
                  (Returns (), svg @ concat (map (frequency_circle ar c) fs) @ els)
              \<and> (\<forall>el\<in>set els. fst el = ''path'')
              \<and> length els = length (concat (map (\<lambda>e. for_in (snd e))
                                                  (filter (\<lambda>e. fst e \<noteq> ''calm'') data)))
              \<and> map arc_radii (arcs_of els) =
                  concat (map (\<lambda>e. stack_spec ar (member_num data ''calm'')
                                      (map snd (for_in (snd e))))
                              (filter (\<lambda>e. fst e \<noteq> ''calm'') data))))
   \<and> (\<forall>pre dir bs1 bin v bs2 post.
        data = pre @ (dir, Obj (bs1 @ (bin, v) # bs2)) # post \<and> dir \<noteq> ''calm''
        \<and> (\<forall>e\<in>set pre. fst e \<noteq> ''calm'' \<longrightarrow> (\<forall>b\<in>set (for_in (snd e)). styled config (fst b)))
        \<and> (\<forall>b\<in>set bs1. styled config (fst b)) \<and> \<not> styled config bin \<longrightarrow>
        (\<exists>els arc0. drawRose ar (Some data) (Some c) (Some svg) =
                  (Throws TypeError,
                   svg @ concat (map (frequency_circle ar c) fs) @ els
                     @ [(''path'', [(Attr ''d'', Arc arc0)])])
              \<and> (\<forall>el\<in>set els. fst el = ''path'')
              \<and> length els = length (concat (map (\<lambda>e. for_in (snd e))
                                                  (filter (\<lambda>e. fst e \<noteq> ''calm'') pre)))
                               + length bs1
              \<and> map arc_radii (arcs_of (els @ [(''path'', [(Attr ''d'', Arc arc0)])])) =
                  concat (map (\<lambda>e. stack_spec ar (member_num data ''calm'')
                                      (map snd (for_in (snd e))))
                              (filter (\<lambda>e. fst e \<noteq> ''calm'') pre))
                  @ stack_spec ar (member_num data ''calm'') (map snd (bs1 @ [(bin, v)]))))
   \<and> ((\<exists>e\<in>set data. fst e \<noteq> ''calm'' \<and> (\<exists>b\<in>set (for_in (snd e)). \<not> styled config (fst b))) \<longrightarrow>
        (\<exists>els arc0. drawRose ar (Some data) (Some c) (Some svg) =
                  (Throws TypeError,
                   svg @ concat (map (frequency_circle ar c) fs) @ els
                     @ [(''path'', [(Attr ''d'', Arc arc0)])])
              \<and> (\<forall>el\<in>set els. fst el = ''path'')))"
proof -
  let ?angs = "getAngles ar (getDirections data)"
  let ?circles = "concat (map (frequency_circle ar c) fs)"
  let ?svg1 = "svg @ ?circles"
  let ?stack = "\<lambda>e. stack_spec ar (member_num data ''calm'') (map snd (for_in (snd e)))"
  have run: "drawRose ar (Some data) (Some c) (Some svg) = drawRose_dirs ar data data c ?angs ?svg1"
    using drawRose_run [OF assms, of "Some c" "Some svg"] by simp
  have angs: "\<forall>e\<in>set data. fst e \<noteq> ''calm'' \<longrightarrow> (\<exists>a. map_of ?angs (fst e) = Some a)"
    using angles_of_data_defined by blast
  have part1: "\<exists>els. drawRose ar (Some data) (Some c) (Some svg) = (Returns (), svg @ ?circles @ els)
              \<and> (\<forall>el\<in>set els. fst el = ''path'')
              \<and> length els = length (concat (map (\<lambda>e. for_in (snd e))
                                                  (filter (\<lambda>e. fst e \<noteq> ''calm'') data)))
              \<and> map arc_radii (arcs_of els) =
                  concat (map ?stack (filter (\<lambda>e. fst e \<noteq> ''calm'') data))"
    if cfg: "\<forall>e\<in>set data. fst e \<noteq> ''calm'' \<longrightarrow>
               (\<forall>b\<in>set (for_in (snd e)). styled config (fst b))"
  proof -
    obtain els where els:
      "drawRose_dirs ar data data c ?angs ?svg1 = (Returns (), ?svg1 @ els)"
      "map arc_radii (arcs_of els) = concat (map ?stack (filter (\<lambda>e. fst e \<noteq> ''calm'') data))"
      "\<forall>el\<in>set els. fst el = ''path''"
      "length els = length (concat (map (\<lambda>e. for_in (snd e))
                                        (filter (\<lambda>e. fst e \<noteq> ''calm'') data)))"
      using drawRose_dirs_styled [OF cfg angs] by blast
    have "drawRose ar (Some data) (Some c) (Some svg) = (Returns (), svg @ ?circles @ els)"
      using run els(1) by simp
    then show ?thesis using els(2,3,4) by blast
  qed
  have part2: "\<exists>els arc0. drawRose ar (Some data) (Some c) (Some svg) =
                  (Throws TypeError, svg @ ?circles @ els @ [(''path'', [(Attr ''d'', Arc arc0)])])
              \<and> (\<forall>el\<in>set els. fst el = ''path'')
              \<and> length els = length (concat (map (\<lambda>e. for_in (snd e))
                                                  (filter (\<lambda>e. fst e \<noteq> ''calm'') pre)))
                               + length bs1
              \<and> map arc_radii (arcs_of (els @ [(''path'', [(Attr ''d'', Arc arc0)])])) =
                  concat (map ?stack (filter (\<lambda>e. fst e \<noteq> ''calm'') pre))
                  @ stack_spec ar (member_num data ''calm'') (map snd (bs1 @ [(bin, v)]))"
    if split: "data = pre @ (dir, Obj (bs1 @ (bin, v) # bs2)) # post" and dir: "dir \<noteq> ''calm''"
      and pre: "\<forall>e\<in>set pre. fst e \<noteq> ''calm'' \<longrightarrow>
                  (\<forall>b\<in>set (for_in (snd e)). styled config (fst b))"
      and bs1: "\<forall>b\<in>set bs1. styled config (fst b)" and bin: "\<not> styled config bin"
    for pre dir bs1 bin v bs2 post
  proof -
    have pre_angs: "\<forall>e\<in>set pre. fst e \<noteq> ''calm'' \<longrightarrow> (\<exists>a. map_of ?angs (fst e) = Some a)"
      using angs split by auto
    obtain a where a: "map_of ?angs dir = Some a"
      using angs split dir by auto
    have bin': "\<not> styled config (fst (bin, v))" using bin by simp
    obtain els arc0 where els:
      "drawRose_dirs ar data (pre @ (dir, Obj (bs1 @ (bin, v) # bs2)) # post) c ?angs ?svg1 =
         (Throws TypeError, ?svg1 @ els @ [(''path'', [(Attr ''d'', Arc arc0)])])"
      "map arc_radii (arcs_of (els @ [(''path'', [(Attr ''d'', Arc arc0)])])) =
         concat (map ?stack (filter (\<lambda>e. fst e \<noteq> ''calm'') pre))
         @ stack_spec ar (member_num data ''calm'') (map snd (bs1 @ [(bin, v)]))"
      "\<forall>el\<in>set els. fst el = ''path''"
      "length els = length (concat (map (\<lambda>e. for_in (snd e))
                                        (filter (\<lambda>e. fst e \<noteq> ''calm'') pre))) + length bs1"
      using drawRose_dirs_fails [OF pre pre_angs dir a bs1 bin'] by blast
    have "drawRose ar (Some data) (Some c) (Some svg) =
            (Throws TypeError, svg @ ?circles @ els @ [(''path'', [(Attr ''d'', Arc arc0)])])"
      using run els(1) split by simp
    then show ?thesis using els(2,3,4) by blast
  qed
  have part3: "\<exists>els arc0. drawRose ar (Some data) (Some c) (Some svg) =
                  (Throws TypeError, svg @ ?circles @ els @ [(''path'', [(Attr ''d'', Arc arc0)])])
              \<and> (\<forall>el\<in>set els. fst el = ''path'')"
    if bad: "\<exists>e\<in>set data. fst e \<noteq> ''calm'' \<and> (\<exists>b\<in>set (for_in (snd e)). \<not> styled config (fst b))"
  proof -
    obtain pre dir bs1 bin v bs2 post where
      "data = pre @ (dir, Obj (bs1 @ (bin, v) # bs2)) # post" "dir \<noteq> ''calm''"
      "\<forall>e\<in>set pre. fst e \<noteq> ''calm'' \<longrightarrow> (\<forall>b\<in>set (for_in (snd e)). styled config (fst b))"
      "\<forall>b\<in>set bs1. styled config (fst b)" "\<not> styled config bin"
      using first_not_styled [OF bad] by blast
    then show ?thesis using part2 by blast
  qed
  show ?thesis
  proof (intro conjI impI allI)
    assume "\<forall>e\<in>set data. fst e \<noteq> ''calm'' \<longrightarrow> (\<forall>b\<in>set (for_in (snd e)). styled config (fst b))"
    then show "\<exists>els. drawRose ar (Some data) (Some c) (Some svg) = (Returns (), svg @ ?circles @ els)
              \<and> (\<forall>el\<in>set els. fst el = ''path'')
              \<and> length els = length (concat (map (\<lambda>e. for_in (snd e))
                                                  (filter (\<lambda>e. fst e \<noteq> ''calm'') data)))
              \<and> map arc_radii (arcs_of els) =
                  concat (map ?stack (filter (\<lambda>e. fst e \<noteq> ''calm'') data))"
      by (rule part1)
  next
    fix pre dir bs1 bin v bs2 post
    assume "data = pre @ (dir, Obj (bs1 @ (bin, v) # bs2)) # post \<and> dir \<noteq> ''calm''
        \<and> (\<forall>e\<in>set pre. fst e \<noteq> ''calm'' \<longrightarrow> (\<forall>b\<in>set (for_in (snd e)). styled config (fst b)))
        \<and> (\<forall>b\<in>set bs1. styled config (fst b)) \<and> \<not> styled config bin"
    then show "\<exists>els arc0. drawRose ar (Some data) (Some c) (Some svg) =
                  (Throws TypeError, svg @ ?circles @ els @ [(''path'', [(Attr ''d'', Arc arc0)])])
              \<and> (\<forall>el\<in>set els. fst el = ''path'')
              \<and> length els = length (concat (map (\<lambda>e. for_in (snd e))
                                                  (filter (\<lambda>e. fst e \<noteq> ''calm'') pre)))
                               + length bs1
              \<and> map arc_radii (arcs_of (els @ [(''path'', [(Attr ''d'', Arc arc0)])])) =
                  concat (map ?stack (filter (\<lambda>e. fst e \<noteq> ''calm'') pre))
                  @ stack_spec ar (member_num data ''calm'') (map snd (bs1 @ [(bin, v)]))"
      using part2 [of pre dir bs1 bin v bs2 post] by blast
  next
    assume "\<exists>e\<in>set data. fst e \<noteq> ''calm'' \<and> (\<exists>b\<in>set (for_in (snd e)). \<not> styled config (fst b))"
    then show "\<exists>els arc0. drawRose ar (Some data) (Some c) (Some svg) =
                  (Throws TypeError, svg @ ?circles @ els @ [(''path'', [(Attr ''d'', Arc arc0)])])
              \<and> (\<forall>el\<in>set els. fst el = ''path'')"
      by (rule part3)
  qed
qed

theorem drawRose_emits_before_failing_witness:
  "fst (drawRose exact (Some [(''calm'', Num 8), (''N'', Obj [(''0-10'', - 3)])])
         (Some (default_center exact)) (Some [])) = Returns ()
   \<and> map arc_radii (arcs_of (snd (drawRose exact
         (Some [(''calm'', Num 8), (''N'', Obj [(''0-10'', - 3)])])
         (Some (default_center exact)) (Some [])))) = [(Some 8, Some 5)]
   \<and> fst (drawRose exact (Some [(''calm'', Num 8), (''N'', Obj [(''0-10'', 3), (''gust'', 5)])])
         (Some (default_center exact)) (Some [])) = Throws TypeError
   \<and> map arc_radii (arcs_of (snd (drawRose exact
         (Some [(''calm'', Num 8), (''N'', Obj [(''0-10'', 3), (''gust'', 5)])])
         (Some (default_center exact)) (Some [])))) = [(Some 8, Some 11), (Some 11, Some 16)]"
proof -
  let ?neg = "[(''calm'', Num 8), (''N'', Obj [(''0-10'', - 3)])] :: real dataset"
  let ?gust = "[(''calm'', Num 8), (''N'', Obj [(''0-10'', 3), (''gust'', 5)])] :: real dataset"
  let ?c = "default_center exact"
  have circles_neg: "for_down exact (domain exact ?neg) (jnum exact 5) =
                       Some (countdown (domain exact ?neg) 5)"
    by (simp add: for_down_exact)
  have circles_gust: "for_down exact (domain exact ?gust) (jnum exact 5) =
                        Some (countdown (domain exact ?gust) 5)"
    by (simp add: for_down_exact)
  have cfg: "\<forall>e\<in>set ?neg. fst e \<noteq> ''calm'' \<longrightarrow> (\<forall>b\<in>set (for_in (snd e)). styled config (fst b))"
    by (simp add: styled_def config_def)
  obtain els where els:
    "drawRose exact (Some ?neg) (Some ?c) (Some []) =
       (Returns (), [] @ concat (map (frequency_circle exact ?c)
                                     (countdown (domain exact ?neg) 5)) @ els)"
    "map arc_radii (arcs_of els) =
       concat (map (\<lambda>e. stack_spec exact (member_num ?neg ''calm'') (map snd (for_in (snd e))))
                   (filter (\<lambda>e. fst e \<noteq> ''calm'') ?neg))"
    using drawRose_emits_before_failing [OF circles_neg, of ?c "[]", THEN conjunct1, THEN mp, OF cfg]
    by blast
  have neg_radii: "map arc_radii (arcs_of (snd (drawRose exact (Some ?neg) (Some ?c) (Some [])))) =
                     [(Some 8, Some 5)]"
    by (simp add: els arcs_of_append arcs_of_frequency_circles member_num_def)
  have split: "?gust = [(''calm'', Num 8)] @ (''N'', Obj ([(''0-10'', 3)] @ (''gust'', 5) # [])) # []
        \<and> ''N'' \<noteq> ''calm''
        \<and> (\<forall>e\<in>set [(''calm'', Num 8 :: real jsval)]. fst e \<noteq> ''calm'' \<longrightarrow>
              (\<forall>b\<in>set (for_in (snd e)). styled config (fst b)))
        \<and> (\<forall>b\<in>set [(''0-10'', 3 :: real)]. styled config (fst b))
        \<and> \<not> styled config ''gust''"
    by (simp add: styled_def config_def object_prototype_keys_def)
  obtain els' arc0 where els':
    "drawRose exact (Some ?gust) (Some ?c) (Some []) =
       (Throws TypeError, [] @ concat (map (frequency_circle exact ?c)
                                           (countdown (domain exact ?gust) 5))
                             @ els' @ [(''path'', [(Attr ''d'', Arc arc0)])])"
    "map arc_radii (arcs_of (els' @ [(''path'', [(Attr ''d'', Arc arc0)])])) =
       concat (map (\<lambda>e. stack_spec exact (member_num ?gust ''calm'') (map snd (for_in (snd e))))
                   (filter (\<lambda>e. fst e \<noteq> ''calm'') [(''calm'', Num 8)]))
       @ stack_spec exact (member_num ?gust ''calm'') (map snd ([(''0-10'', 3)] @ [(''gust'', 5)]))"
    using drawRose_emits_before_failing [OF circles_gust, of ?c "[]", THEN conjunct2, THEN conjunct1,
        rule_format, OF split]
    by blast
  have "arcs_of (snd (drawRose exact (Some ?gust) (Some ?c) (Some []))) =
          arcs_of (els' @ [(''path'', [(Attr ''d'', Arc arc0)])])"
    by (simp add: els'(1) arcs_of_append arcs_of_frequency_circles)
  then have gust_radii:
    "map arc_radii (arcs_of (snd (drawRose exact (Some ?gust) (Some ?c) (Some [])))) =
       [(Some 8, Some 11), (Some 11, Some 16)]"
    by (simp add: els'(2) member_num_def)
  show ?thesis
    using els(1) els'(1) neg_radii gust_radii by simp
qed

text \<open>
  C9 as stated fails twice. A dataset with the unconfigured bin label \<open>"gust"\<close> makes the
  call fail with a TypeError after six elements were appended: two reference circles with
  their labels, the arc of the first bin and the unfinished path of the failing one. And
  a negative frequency is not rejected: the call returns normally and the arc runs
  inwards, from radius 8 to radius 5. The numbers involved are small integers, on which
  floating point is exact.
\<close>

theorem drawRose_all_or_nothing_counterexample:
  "fst (drawRose exact (Some [(''calm'', Num 8), (''N'', Obj [(''0-10'', 3), (''gust'', 5)])])
          None None)
     = Throws TypeError
   \<and> map fst (snd (drawRose exact
                     (Some [(''calm'', Num 8), (''N'', Obj [(''0-10'', 3), (''gust'', 5)])])
                     None None))
     = [''circle'', ''text'', ''circle'', ''text'', ''path'', ''path'']
   \<and> fst (drawRose exact (Some [(''calm'', Num 8), (''N'', Obj [(''0-10'', - 3)])]) None None)
     = Returns ()
   \<and> map arc_radii (arcs_of (snd (drawRose exact
                                     (Some [(''calm'', Num 8), (''N'', Obj [(''0-10'', - 3)])])
                                     None None)))
     = [(Some 8, Some 5)]"
  by (simp add: drawRose_def Let_def domain_def maxLength_def drawFrequencyCircles_def
      for_down_exact countdown.simps [of 20] countdown.simps [of 10] countdown.simps [of 0]
      getDirections_def getAngles_def degreesInCircle_def drawChunk_def property_def
      config_def object_prototype_keys_def member_num_def
      frequency_circle_def chunk_path_def chunk_arc_def arcs_of_def arc_radii_def)

text \<open>
  C4 (code defect). A missing \<open>"calm"\<close> key is specified to count as 0. \<open>maxLength\<close>
  does so, its \<open>calm\<close> starts at 0, and the domain of \<open>{"N": {"0-10": 3}}\<close> is 10 with
  or without \<open>"calm": 0\<close>. \<open>drawRose\<close> reads \<open>data["calm"]\<close> with no default: without the
  key the offset is \<open>undefined\<close>, so the arc's inner radius is not a number and its outer
  radius is \<open>NaN\<close>, where the same dataset with \<open>"calm": 0\<close> gives the radii 0 and 3.
  The numbers involved are small integers, on which floating point is exact.
\<close>

theorem drawRose_missing_calm:
  "domain exact [(''N'', Obj [(''0-10'', 3)])] = 10
   \<and> domain exact [(''N'', Obj [(''0-10'', 3)]), (''calm'', Num 0)] = 10
   \<and> fst (drawRose exact (Some [(''N'', Obj [(''0-10'', 3)])]) None None) = Returns ()
   \<and> map arc_radii (arcs_of (snd (drawRose exact (Some [(''N'', Obj [(''0-10'', 3)])]) None None)))
       = [(None, None)]
   \<and> map arc_radii (arcs_of (snd (drawRose exact
                                       (Some [(''N'', Obj [(''0-10'', 3)]), (''calm'', Num 0)])
                                       None None)))
       = [(Some 0, Some 3)]"
  by (simp add: drawRose_def Let_def domain_def maxLength_def drawFrequencyCircles_def
      for_down_exact countdown.simps [of 10] countdown.simps [of 0]
      getDirections_def getAngles_def degreesInCircle_def drawChunk_def property_def
      config_def object_prototype_keys_def member_num_def
      frequency_circle_def chunk_path_def chunk_arc_def arcs_of_def arc_radii_def)

end
